theory Spec2Isabelle
  imports Complex_Main "HOL-Library.AList"
begin

section \<open>Bounded-latency OCR pipeline: a shallow embedding\<close>

text \<open>
  The development follows the Python sources
  \<^verbatim>\<open>complete_discord_ocr_integration.py\<close>, \<^verbatim>\<open>enhanced_ocr_classes.py\<close> and
  \<^verbatim>\<open>discord_screenshare_ocr.py\<close>. Objects become records that are passed in and returned
  updated; dictionaries with a fixed key set become records, dictionaries whose key set or
  order matters become maps or association lists. Python floats are idealised as exact
  reals: every comparison of the source is exact on floats as well, the arithmetic is
  exact here and rounded to the nearest double there. Everything outside the core (image
  processing, the recognition backends, threads, the clock, the file system) enters the
  model as an explicit argument that says what that collaborator did.
\<close>

subsection \<open>PerformanceMonitor\<close>

text \<open>
  The dictionary \<^verbatim>\<open>self.metrics\<close> of \<^verbatim>\<open>PerformanceMonitor\<close>; its seven keys are fixed in
  \<^verbatim>\<open>__init__\<close>, where all of them start at 0.
\<close>

record metrics =
  cpu_usage :: real
  memory_usage :: real
  ocr_success_rate :: real
  avg_processing_time :: real
  frames_processed :: int
  frames_skipped :: int
  error_count :: int

definition initial_metrics :: metrics where
  "initial_metrics =
     \<lparr>cpu_usage = 0, memory_usage = 0, ocr_success_rate = 0, avg_processing_time = 0,
      frames_processed = 0, frames_skipped = 0, error_count = 0\<rparr>"

text \<open>\<^verbatim>\<open>PerformanceMonitor.update_ocr_metrics(processing_time, success)\<close>.\<close>

definition update_ocr_metrics :: "real \<Rightarrow> bool \<Rightarrow> metrics \<Rightarrow> metrics" where
  "update_ocr_metrics processing_time success m =
     (let m1 = m\<lparr>frames_processed := frames_processed m + 1\<rparr>
      in if success
         then m1\<lparr>ocr_success_rate := ocr_success_rate m1 * 0.95 + (100 * 0.05),
                 avg_processing_time := avg_processing_time m1 * 0.9 + (processing_time * 0.1)\<rparr>
         else m1\<lparr>frames_skipped := frames_skipped m1 + 1,
                 error_count := error_count m1 + 1,
                 ocr_success_rate := ocr_success_rate m1 * 0.95\<rparr>)"


subsection \<open>AdaptiveOCRController\<close>

record controller =
  current_interval :: real
  min_interval :: real
  max_interval :: real
  adjustment_factor :: real

text \<open>The values set by \<^verbatim>\<open>AdaptiveOCRController.__init__\<close>.\<close>

definition initial_controller :: controller where
  "initial_controller =
     \<lparr>current_interval = 2.0, min_interval = 0.5, max_interval = 10.0,
      adjustment_factor = 0.1\<rparr>"

text \<open>
  \<^verbatim>\<open>AdaptiveOCRController.adjust_parameters\<close>. The argument \<open>m\<close> is the snapshot that
  \<^verbatim>\<open>get_current_metrics()\<close> returns; the result is the dictionary \<^verbatim>\<open>adjustments\<close> (its
  entries in insertion order, read with \<open>map_of\<close>) together with the controller after the
  call.
\<close>

definition adjust_parameters :: "metrics \<Rightarrow> controller \<Rightarrow> (string \<times> real) list \<times> controller" where
  "adjust_parameters m c =
     (let (adj1, c1) =
            (if cpu_usage m > 80
             then let i = min (current_interval c * (1 + adjustment_factor c)) (max_interval c)
                  in (AList.update ''interval_increased'' i [], c\<lparr>current_interval := i\<rparr>)
             else if cpu_usage m < 40 \<and> current_interval c > min_interval c
             then let i = max (current_interval c * (1 - adjustment_factor c)) (min_interval c)
                  in (AList.update ''interval_decreased'' i [], c\<lparr>current_interval := i\<rparr>)
             else ([], c));
          adj2 =
            (if avg_processing_time m > 2.0
             then AList.update ''suggested_timeout'' (avg_processing_time m + 1.0) adj1
             else AList.update ''suggested_timeout'' 3.0 adj1)
      in (adj2, c1))"

text \<open>
  States of the controller that a run can reach: it starts as \<open>initial_controller\<close> and
  changes only through \<open>adjust_parameters\<close>, on whatever snapshot the monitor holds then.
\<close>

inductive reachable_controller :: "controller \<Rightarrow> bool" where
  start: "reachable_controller initial_controller"
| adjust: "reachable_controller c \<Longrightarrow> reachable_controller (snd (adjust_parameters m c))"

subsection \<open>Python exceptions\<close>

text \<open>
  The exceptions that the modelled statements can raise; \<open>CollaboratorError\<close> stands for
  whatever a collaborator outside the core (capture, recogniser, overlay, Discord) raises.
\<close>

datatype py_error = ZeroDivisionError | IndexError | KeyError | TypeError | CollaboratorError

subsection \<open>Configuration loading\<close>

datatype json = JNull | JBool bool | JNum real | JStr string


definition default_config :: "string \<rightharpoonup> json" where
  "default_config =
     map_of
       [(''ocr_engine'', JStr ''tesseract''),
        (''ocr_timeout'', JNum 3.0),
        (''ocr_interval'', JNum 2.0),
        (''discord_bot_token'', JNull),
        (''discord_webhook_url'', JNull),
        (''enable_overlays'', JBool True),
        (''enable_performance_monitoring'', JBool True),
        (''enable_adaptive_control'', JBool True),
        (''max_cpu_usage'', JNum 80),
        (''max_memory_usage'', JNum 1000),
        (''log_level'', JStr ''INFO'')]"






text \<open>
  A configuration value where Python needs a number (an operand of \<^verbatim>\<open>*\<close>, \<^verbatim>\<open><\<close> or \<^verbatim>\<open>>\<close>
  against a float): numbers and booleans are numbers, a string or \<^verbatim>\<open>None\<close> raises
  \<^verbatim>\<open>TypeError\<close>, a missing key raises \<^verbatim>\<open>KeyError\<close>.
\<close>

definition config_number :: "(string \<rightharpoonup> json) \<Rightarrow> string \<Rightarrow> py_error + real" where
  "config_number cfg key =
     (case cfg key of
        None \<Rightarrow> Inl KeyError
      | Some (JNum x) \<Rightarrow> Inr x
      | Some (JBool b) \<Rightarrow> Inr (if b then 1 else 0)
      | Some (JStr _) \<Rightarrow> Inl TypeError
      | Some JNull \<Rightarrow> Inl TypeError)"

text \<open>Python's truth test on a configuration value.\<close>

fun json_truthy :: "json \<Rightarrow> bool" where
  "json_truthy JNull = False"
| "json_truthy (JBool b) = b"
| "json_truthy (JNum x) = (x \<noteq> 0)"
| "json_truthy (JStr s) = (s \<noteq> [])"

subsection \<open>Engine selection and the main processing loop\<close>

text \<open>
  The three recognisers held by \<^verbatim>\<open>IntegratedDiscordOCRSystem\<close>: \<^verbatim>\<open>self.fast_ocr\<close>,
  \<^verbatim>\<open>self.main_ocr\<close> and \<^verbatim>\<open>self.discord_ocr\<close>.
\<close>

datatype engine = FastEngine | MainEngine | DiscordEngine

text \<open>The string that the loop stores in \<^verbatim>\<open>ocr_engine_used\<close>.\<close>

fun ocr_engine_used :: "engine \<Rightarrow> string" where
  "ocr_engine_used FastEngine = ''fast''"
| "ocr_engine_used MainEngine = ''main''"
| "ocr_engine_used DiscordEngine = ''discord''"

text \<open>
  The \<^verbatim>\<open>if\<close>/\<^verbatim>\<open>elif\<close>/\<^verbatim>\<open>else\<close> chain of \<^verbatim>\<open>_main_processing_loop\<close> that picks the recogniser
  from the metrics snapshot.
\<close>

definition select_engine :: "metrics \<Rightarrow> engine" where
  "select_engine m =
     (if cpu_usage m > 70 then FastEngine
      else if avg_processing_time m < 1.0 then MainEngine
      else DiscordEngine)"

text \<open>
  \<^verbatim>\<open>str.strip()\<close> on ASCII text: the characters it removes are the ASCII characters for
  which \<^verbatim>\<open>str.isspace\<close> holds.
\<close>

definition is_space :: "char \<Rightarrow> bool" where
  "is_space c =
     (c \<in> set [CHR 0x09, CHR 0x0A, CHR 0x0B, CHR 0x0C, CHR 0x0D,
                CHR 0x1C, CHR 0x1D, CHR 0x1E, CHR 0x1F, CHR 0x20])"

definition py_strip :: "string \<Rightarrow> string" where
  "py_strip s = rev (dropWhile is_space (rev (dropWhile is_space s)))"

text \<open>
  The part of \<^verbatim>\<open>IntegratedDiscordOCRSystem\<close> that the loop reads and writes;
  \<open>last_capture_time\<close> is the loop's local variable of that name.
\<close>

record system =
  config :: "string \<rightharpoonup> json"
  performance_monitor :: metrics
  adaptive_controller :: controller
  running :: bool
  last_capture_time :: real



text \<open>What the collaborators did during one iteration of the loop.\<close>

datatype capture_result = CaptureRaised | NoFrame | Frame

record cycle =
  current_time :: real \<comment> \<open>\<^verbatim>\<open>time.time()\<close> at the top of the iteration\<close>
  capture :: capture_result \<comment> \<open>\<^verbatim>\<open>capture_discord_screen()\<close>\<close>
  engine_output :: "engine \<Rightarrow> string option"
    \<comment> \<open>the text the call of that recogniser returns on the frame; \<open>None\<close>: it raised\<close>
  end_time :: real \<comment> \<open>\<^verbatim>\<open>time.time()\<close> after the recogniser returned\<close>
  dispatch_raises :: bool \<comment> \<open>the overlay update or the Discord hand-over raised\<close>

text \<open>
  The statements of the \<^verbatim>\<open>try\<close> block are modelled by functions that return the exception
  raised, if any, with the state at that point. The first is the block under
  \<^verbatim>\<open># Apply adaptive control\<close>.
\<close>

definition apply_adaptive_control :: "system \<Rightarrow> py_error option \<times> system" where
  "apply_adaptive_control s =
     (case config s ''enable_adaptive_control'' of
        None \<Rightarrow> (Some KeyError, s)
      | Some flag \<Rightarrow>
          if json_truthy flag
          then let (adjustments, c) = adjust_parameters (performance_monitor s) (adaptive_controller s);
                   s1 = s\<lparr>adaptive_controller := c\<rparr>
               in if adjustments \<noteq> []
                  then (None, s1\<lparr>config := (config s1)(''ocr_interval'' \<mapsto> JNum (current_interval c))\<rparr>)
                  else (None, s1)
          else (None, s))"

text \<open>
  The block under \<^verbatim>\<open># Check resource limits\<close>: two comparisons of a metric with a
  configuration value; what follows them only logs and sleeps.
\<close>

definition check_resource_limits :: "system \<Rightarrow> py_error option \<times> system" where
  "check_resource_limits s =
     (case config_number (config s) ''max_cpu_usage'' of
        Inl e \<Rightarrow> (Some e, s)
      | Inr max_cpu \<Rightarrow>
          (case config_number (config s) ''max_memory_usage'' of
             Inl e \<Rightarrow> (Some e, s)
           | Inr max_memory \<Rightarrow> (None, s)))"

definition after_capture :: "system \<Rightarrow> py_error option \<times> system" where
  "after_capture s =
     (case apply_adaptive_control s of
        (Some e, s1) \<Rightarrow> (Some e, s1)
      | (None, s1) \<Rightarrow> check_resource_limits s1)"

text \<open>The \<^verbatim>\<open>try\<close> block of the loop body.\<close>

definition loop_body :: "cycle \<Rightarrow> system \<Rightarrow> py_error option \<times> system" where
  "loop_body ev s =
     (case config_number (config s) ''ocr_interval'' of
        Inl e \<Rightarrow> (Some e, s)
      | Inr interval \<Rightarrow>
          if current_time ev - last_capture_time s < interval then (None, s)
          else
            let s1 = s\<lparr>last_capture_time := current_time ev\<rparr>
            in (case capture ev of
                 CaptureRaised \<Rightarrow> (Some CollaboratorError, s1)
               | NoFrame \<Rightarrow> after_capture s1
               | Frame \<Rightarrow>
                   (case engine_output ev (select_engine (performance_monitor s1)) of
                      None \<Rightarrow> (Some CollaboratorError, s1)
                    | Some ocr_text \<Rightarrow>
                        let processing_time = end_time ev - current_time ev;
                            success = (ocr_text \<noteq> [] \<and> py_strip ocr_text \<noteq> []);
                            s2 = s1\<lparr>performance_monitor :=
                                   update_ocr_metrics processing_time success
                                     (performance_monitor s1)\<rparr>
                        in if success \<and> dispatch_raises ev then (Some CollaboratorError, s2)
                           else after_capture s2)))"





subsection \<open>WorkingQuickOCR\<close>

text \<open>
  The dictionary \<^verbatim>\<open>self.performance_stats\<close>; the entry \<^verbatim>\<open>'avg_processing_time'\<close> is the
  field \<open>stats_avg_processing_time\<close>.
\<close>

record stats =
  total_calls :: int
  successful_calls :: int
  timeout_calls :: int
  stats_avg_processing_time :: real

text \<open>
  The attributes of a \<^verbatim>\<open>WorkingQuickOCR\<close> that its methods read or write after \<^verbatim>\<open>__init__\<close>;
  the others (\<^verbatim>\<open>engine\<close>, \<^verbatim>\<open>tesseract_config\<close>, the backend readers) only steer the backend.
\<close>

record quick_ocr =
  timeout :: real
  performance_stats :: stats

text \<open>
  What \<^verbatim>\<open>ocr_with_timeout\<close> finds after \<^verbatim>\<open>ocr_thread.join(timeout=timeout)\<close>: the worker is
  still alive; it has put an error message into \<^verbatim>\<open>error_queue\<close>; it has produced a text (the
  value before \<^verbatim>\<open>strip()\<close>, with the reading of \<^verbatim>\<open>time.time() - start_time\<close> taken on that
  path); both queues are empty; or the body of the outer \<^verbatim>\<open>try\<close> raised.
\<close>

datatype thread_outcome =
  StillAlive
| WorkerError string
| WorkerResult string real
| NoOutput
| OuterError

definition ocr_with_timeout ::
  "thread_outcome \<Rightarrow> 'a quick_ocr_scheme \<Rightarrow> string \<times> 'a quick_ocr_scheme" where
  "ocr_with_timeout outcome s =
     (let st = (performance_stats s)\<lparr>total_calls := total_calls (performance_stats s) + 1\<rparr>
      in case outcome of
           StillAlive \<Rightarrow>
             ('''', s\<lparr>performance_stats := st\<lparr>timeout_calls := timeout_calls st + 1\<rparr>\<rparr>)
         | WorkerError error_msg \<Rightarrow> ('''', s\<lparr>performance_stats := st\<rparr>)
         | WorkerResult text processing_time \<Rightarrow>
             (py_strip text,
              s\<lparr>performance_stats :=
                  st\<lparr>successful_calls := successful_calls st + 1,
                     stats_avg_processing_time :=
                       stats_avg_processing_time st * 0.9 + processing_time * 0.1\<rparr>\<rparr>)
         | NoOutput \<Rightarrow> ('''', s\<lparr>performance_stats := st\<rparr>)
         | OuterError \<Rightarrow> ('''', s\<lparr>performance_stats := st\<rparr>))"

text \<open>
  The dictionary that \<^verbatim>\<open>get_performance_stats\<close> returns: a copy of the four counters with
  the two rates added.
\<close>

record stats_report = stats +
  success_rate :: real
  timeout_rate :: real

text \<open>
  Python's \<^verbatim>\<open>/\<close> on two integers: a float, or \<^verbatim>\<open>ZeroDivisionError\<close> (HOL's own division
  would return 0 there).
\<close>

definition py_truediv :: "int \<Rightarrow> int \<Rightarrow> py_error + real" where
  "py_truediv a b = (if b = 0 then Inl ZeroDivisionError else Inr (real_of_int a / real_of_int b))"

text \<open>
  \<^verbatim>\<open>get_performance_stats\<close>. No handler surrounds the body, so an exception would reach the
  caller: \<open>Inl\<close>. Otherwise the result is the report with the object after the call.
\<close>

definition add_rates :: "stats \<Rightarrow> real \<Rightarrow> real \<Rightarrow> stats_report" where
  "add_rates st sr tr =
     \<lparr>total_calls = total_calls st, successful_calls = successful_calls st,
      timeout_calls = timeout_calls st,
      stats_avg_processing_time = stats_avg_processing_time st,
      success_rate = sr, timeout_rate = tr\<rparr>"

definition get_performance_stats ::
  "'a quick_ocr_scheme \<Rightarrow> py_error + (stats_report \<times> 'a quick_ocr_scheme)" where
  "get_performance_stats s =
     (let st = performance_stats s
      in if total_calls st > 0
         then (case py_truediv (successful_calls st) (total_calls st) of
                 Inl e \<Rightarrow> Inl e
               | Inr q1 \<Rightarrow>
                   (case py_truediv (timeout_calls st) (total_calls st) of
                      Inl e \<Rightarrow> Inl e
                    | Inr q2 \<Rightarrow> Inr (add_rates st (q1 * 100) (q2 * 100), s)))
         else Inr (add_rates st 0 0, s))"

subsection \<open>WorkingFastScreenOCR\<close>

text \<open>
  \<^verbatim>\<open>text_cache\<close> is a Python dictionary, which keeps its keys in insertion order: an
  association list with distinct keys, oldest key first. Assigning to a key that is present
  replaces its value in place (\<open>AList.update\<close>), \<^verbatim>\<open>del\<close> removes the key (\<open>AList.delete\<close>).
\<close>

record fast_screen_ocr = quick_ocr +
  cache_size :: int
  text_cache :: "(int \<times> string) list"

text \<open>
  The image enters through its fingerprint, the value of \<^verbatim>\<open>_calculate_image_hash(image)\<close>:
  \<open>None\<close> when the computation raised. Python's truth test on it (\<^verbatim>\<open>not current_hash\<close>,
  \<^verbatim>\<open>image_hash and result\<close>) is false for \<^verbatim>\<open>None\<close> and for the integer 0.
\<close>

definition truthy_hash :: "int option \<Rightarrow> bool" where
  "truthy_hash h = (case h of None \<Rightarrow> False | Some k \<Rightarrow> k \<noteq> 0)"

definition is_similar_to_cached :: "int option \<Rightarrow> 'a fast_screen_ocr_scheme \<Rightarrow> bool" where
  "is_similar_to_cached current_hash s =
     (if \<not> truthy_hash current_hash \<or> text_cache s = [] then False
      else case current_hash of
             None \<Rightarrow> False
           | Some k \<Rightarrow> (if k \<in> set (map fst (text_cache s)) then True else False))"

text \<open>\<^verbatim>\<open>self.text_cache.get(image_hash, "")\<close>.\<close>

definition cache_get :: "int option \<Rightarrow> (int \<times> string) list \<Rightarrow> string" where
  "cache_get image_hash cache =
     (case image_hash of
        None \<Rightarrow> ''''
      | Some k \<Rightarrow> (case map_of cache k of None \<Rightarrow> '''' | Some t \<Rightarrow> t))"

text \<open>
  The statements under \<^verbatim>\<open>if image_hash and result:\<close> in \<^verbatim>\<open>fast_ocr\<close>: store the result, then
  drop the first key when the dictionary has grown beyond \<^verbatim>\<open>cache_size\<close> (the argument
  \<open>limit\<close>). The first component
  of the result is the exception, if \<^verbatim>\<open>list(self.text_cache.keys())[0]\<close> raised one, the second
  is the dictionary as the statements leave it.
\<close>

definition cache_put ::
  "int \<Rightarrow> string \<Rightarrow> int \<Rightarrow> (int \<times> string) list
     \<Rightarrow> py_error option \<times> (int \<times> string) list" where
  "cache_put image_hash result limit cache =
     (let cache1 = AList.update image_hash result cache
      in if int (length cache1) > limit
         then (case cache1 of
                 [] \<Rightarrow> (Some IndexError, cache1)
               | (oldest_key, _) # _ \<Rightarrow> (None, AList.delete oldest_key cache1))
         else (None, cache1))"

text \<open>
  \<^verbatim>\<open>fast_ocr(image, force_process)\<close>. \<open>outcome\<close> says what the recognition thread does if
  \<^verbatim>\<open>ocr_with_timeout\<close> is called. An exception inside the body is caught by the method, which
  then returns the empty string.
\<close>

definition fast_ocr ::
  "int option \<Rightarrow> bool \<Rightarrow> thread_outcome \<Rightarrow> 'a fast_screen_ocr_scheme
     \<Rightarrow> string \<times> 'a fast_screen_ocr_scheme" where
  "fast_ocr image_hash force_process outcome s =
     (if \<not> force_process \<and> is_similar_to_cached image_hash s
      then (cache_get image_hash (text_cache s), s)
      else
        let (result, s1) = ocr_with_timeout outcome s
        in if truthy_hash image_hash \<and> result \<noteq> []
           then (case image_hash of
                   None \<Rightarrow> (result, s1)
                 | Some k \<Rightarrow>
                     let (raised, cache) = cache_put k result (cache_size s1) (text_cache s1)
                     in (if raised \<noteq> None then '''' else result, s1\<lparr>text_cache := cache\<rparr>))
           else (result, s1))"

text \<open>The attributes after \<^verbatim>\<open>WorkingFastScreenOCR.__init__(timeout, engine, cache_size)\<close>.\<close>

definition new_fast_screen_ocr :: "real \<Rightarrow> int \<Rightarrow> fast_screen_ocr" where
  "new_fast_screen_ocr t n =
     \<lparr>timeout = t,
      performance_stats =
        \<lparr>total_calls = 0, successful_calls = 0, timeout_calls = 0,
         stats_avg_processing_time = 0.0\<rparr>,
      cache_size = n, text_cache = []\<rparr>"

text \<open>A sequence of stores into the cache, oldest first.\<close>

fun cache_put_all ::
  "(int \<times> string) list \<Rightarrow> int \<Rightarrow> (int \<times> string) list \<Rightarrow> (int \<times> string) list" where
  "cache_put_all [] limit cache = cache"
| "cache_put_all ((k, v) # kvs) limit cache =
     cache_put_all kvs limit (snd (cache_put k v limit cache))"

text \<open>
  \<^verbatim>\<open>batch_ocr(images, max_workers)\<close>. Each image is submitted to the pool as one call of
  \<^verbatim>\<open>fast_ocr\<close>; \<open>submit i img\<close> says how the future of the \<open>i\<close>-th image answers
  \<^verbatim>\<open>future.result(timeout=self.timeout + 1)\<close>: with the text, with \<^verbatim>\<open>TimeoutError\<close>, or with
  another exception. The futures are the keys of a dictionary, so the loop visits them in
  the order of submission.
\<close>

datatype future_outcome = FutureResult string | FutureTimeout | FutureError

fun collect_results :: "future_outcome list \<Rightarrow> string list \<Rightarrow> string list" where
  "collect_results [] results = results"
| "collect_results (FutureResult result # futures) results =
     collect_results futures (results @ [result])"
| "collect_results (FutureTimeout # futures) results = collect_results futures (results @ [''''])"
| "collect_results (FutureError # futures) results = collect_results futures (results @ [''''])"

definition batch_ocr :: "(nat \<Rightarrow> 'img \<Rightarrow> future_outcome) \<Rightarrow> 'img list \<Rightarrow> string list" where
  "batch_ocr submit images =
     (if images = [] then []
      else collect_results (map (\<lambda>(i, img). submit i img) (enumerate 0 images)) [])"

section \<open>Properties\<close>

subsection \<open>Engine selection\<close>

lemma loop_body_selected_engine_only:
  "e \<noteq> select_engine (performance_monitor s) \<Longrightarrow>
     loop_body (ev\<lparr>engine_output := (engine_output ev)(e := x)\<rparr>) s = loop_body ev s"
  by (simp add: loop_body_def Let_def split: sum.splits capture_result.splits option.splits)

text \<open>
  Claim C2. The recogniser is chosen by strict precedence on the metrics snapshot: a CPU
  usage above 70 selects the fast engine whatever the average processing time is; otherwise
  an average processing time below 1.0 s selects the main engine; otherwise the
  Discord-optimised engine is selected. At a CPU usage of 75 the fast engine is selected, at
  50 with an average of 0.5 s the main engine, at 50 with an average of 2.5 s the
  Discord-optimised engine. A cycle consults the selected recogniser only: what another one
  would have returned does not change the cycle.
\<close>

theorem select_engine_precedence:
  "(cpu_usage m > 70 \<longrightarrow> select_engine m = FastEngine)
   \<and> (\<not> cpu_usage m > 70 \<and> avg_processing_time m < 1.0 \<longrightarrow> select_engine m = MainEngine)
   \<and> (\<not> cpu_usage m > 70 \<and> \<not> avg_processing_time m < 1.0 \<longrightarrow> select_engine m = DiscordEngine)
   \<and> select_engine (m\<lparr>cpu_usage := 75\<rparr>) = FastEngine
   \<and> select_engine (m\<lparr>cpu_usage := 50, avg_processing_time := 0.5\<rparr>) = MainEngine
   \<and> select_engine (m\<lparr>cpu_usage := 50, avg_processing_time := 2.5\<rparr>) = DiscordEngine
   \<and> (e \<noteq> select_engine (performance_monitor s) \<longrightarrow>
        loop_body (ev\<lparr>engine_output := (engine_output ev)(e := x)\<rparr>) s = loop_body ev s)"
  using loop_body_selected_engine_only [of e s ev x] by (simp add: select_engine_def)

theorem select_engine_precedence_witness:
  "cpu_usage (initial_metrics\<lparr>cpu_usage := 75, avg_processing_time := 0.5\<rparr>) > 70
   \<and> select_engine (initial_metrics\<lparr>cpu_usage := 75, avg_processing_time := 0.5\<rparr>) = FastEngine
   \<and> \<not> cpu_usage (initial_metrics\<lparr>cpu_usage := 50, avg_processing_time := 0.5\<rparr>) > 70
   \<and> avg_processing_time (initial_metrics\<lparr>cpu_usage := 50, avg_processing_time := 0.5\<rparr>) < 1.0
   \<and> select_engine (initial_metrics\<lparr>cpu_usage := 50, avg_processing_time := 0.5\<rparr>) = MainEngine
   \<and> \<not> avg_processing_time (initial_metrics\<lparr>cpu_usage := 50, avg_processing_time := 2.5\<rparr>) < 1.0
   \<and> select_engine (initial_metrics\<lparr>cpu_usage := 50, avg_processing_time := 2.5\<rparr>) = DiscordEngine
   \<and> MainEngine \<noteq>
        select_engine (performance_monitor
          \<lparr>config = default_config,
           performance_monitor = initial_metrics\<lparr>cpu_usage := 75, avg_processing_time := 0.5\<rparr>,
           adaptive_controller = initial_controller, running = True, last_capture_time = 0\<rparr>)
   \<and> loop_body
         (\<lparr>current_time = 100, capture = Frame, engine_output = (\<lambda>e. Some ''text''),
           end_time = 101, dispatch_raises = False\<rparr>
            \<lparr>engine_output := (\<lambda>e. Some ''text'')(MainEngine := None)\<rparr>)
         \<lparr>config = default_config,
          performance_monitor = initial_metrics\<lparr>cpu_usage := 75, avg_processing_time := 0.5\<rparr>,
          adaptive_controller = initial_controller, running = True, last_capture_time = 0\<rparr>
       = loop_body
           \<lparr>current_time = 100, capture = Frame, engine_output = (\<lambda>e. Some ''text''),
            end_time = 101, dispatch_raises = False\<rparr>
           \<lparr>config = default_config,
            performance_monitor = initial_metrics\<lparr>cpu_usage := 75, avg_processing_time := 0.5\<rparr>,
            adaptive_controller = initial_controller, running = True, last_capture_time = 0\<rparr>"
proof -
  let ?m = "initial_metrics\<lparr>cpu_usage := 75, avg_processing_time := 0.5\<rparr>"
  let ?s = "\<lparr>config = default_config, performance_monitor = ?m,
            adaptive_controller = initial_controller, running = True, last_capture_time = 0\<rparr>"
  let ?ev = "\<lparr>current_time = 100, capture = Frame, engine_output = (\<lambda>e. Some ''text''),
             end_time = 101, dispatch_raises = False\<rparr>"
  note w1 = select_engine_precedence [of ?m MainEngine ?s ?ev None]
  note w2 = select_engine_precedence
    [of "initial_metrics\<lparr>cpu_usage := 50, avg_processing_time := 0.5\<rparr>"]
  note w3 = select_engine_precedence
    [of "initial_metrics\<lparr>cpu_usage := 50, avg_processing_time := 2.5\<rparr>"]
  have fast: "select_engine ?m = FastEngine"
    using w1 [THEN conjunct1] by simp
  have main: "select_engine (initial_metrics\<lparr>cpu_usage := 50, avg_processing_time := 0.5\<rparr>)
      = MainEngine"
    using w2 [THEN conjunct2, THEN conjunct1] by simp
  have discord: "select_engine (initial_metrics\<lparr>cpu_usage := 50, avg_processing_time := 2.5\<rparr>)
      = DiscordEngine"
    using w3 [THEN conjunct2, THEN conjunct2, THEN conjunct1] by simp
  have other: "MainEngine \<noteq> select_engine (performance_monitor ?s)"
    using fast by simp
  have same: "loop_body (?ev\<lparr>engine_output := (engine_output ?ev)(MainEngine := None)\<rparr>) ?s
      = loop_body ?ev ?s"
    using w1 [THEN conjunct2, THEN conjunct2, THEN conjunct2, THEN conjunct2, THEN conjunct2,
        THEN conjunct2, THEN mp, OF other] .
  show ?thesis
    using fast main discord other same by simp
qed

subsection \<open>The moving averages of the monitor\<close>

text \<open>
  Claim C4. \<open>update_ocr_metrics\<close> on a success sets the success rate to
  \<open>rate * 0.95 + 100 * 0.05\<close> and the average processing time to
  \<open>time * 0.9 + elapsed * 0.1\<close>; on a failure (a timeout reaches the monitor as a failure)
  it sets the success rate to \<open>rate * 0.95\<close> and leaves the average processing time as it
  was. One success that took 2.0 s, from an average of 1.0 s, gives an average within
  \<open>10\<^sup>-\<^sup>6\<close> of 1.1.
\<close>

theorem update_ocr_metrics_ewma:
  "ocr_success_rate (update_ocr_metrics elapsed True m) = ocr_success_rate m * 0.95 + 100 * 0.05
   \<and> avg_processing_time (update_ocr_metrics elapsed True m) =
       avg_processing_time m * 0.9 + elapsed * 0.1
   \<and> ocr_success_rate (update_ocr_metrics elapsed False m) = ocr_success_rate m * 0.95
   \<and> avg_processing_time (update_ocr_metrics elapsed False m) = avg_processing_time m
   \<and> \<bar>avg_processing_time (update_ocr_metrics 2.0 True (m\<lparr>avg_processing_time := 1.0\<rparr>)) - 1.1\<bar>
       \<le> 1 / 1000000"
  by (simp add: update_ocr_metrics_def Let_def)

subsection \<open>The adaptive controller\<close>

lemma reachable_controller_params:
  "reachable_controller c \<Longrightarrow>
     min_interval c = 0.5 \<and> max_interval c = 10.0 \<and> adjustment_factor c = 0.1"
proof (induction rule: reachable_controller.induct)
  case start
  show ?case by (simp add: initial_controller_def)
next
  case (adjust c m)
  then show ?case by (simp add: adjust_parameters_def Let_def)
qed

lemma adjust_parameters_interval:
  "current_interval (snd (adjust_parameters m c)) =
     (if cpu_usage m > 80
      then min (current_interval c * (1 + adjustment_factor c)) (max_interval c)
      else if cpu_usage m < 40 \<and> current_interval c > min_interval c
      then max (current_interval c * (1 - adjustment_factor c)) (min_interval c)
      else current_interval c)"
  by (simp add: adjust_parameters_def Let_def)

lemma adjust_parameters_timeout:
  "map_of (fst (adjust_parameters m c)) ''suggested_timeout'' =
     Some (if avg_processing_time m > 2.0 then avg_processing_time m + 1.0 else 3.0)"
  by (simp add: adjust_parameters_def Let_def)

lemma adjust_parameters_constants:
  "min_interval (snd (adjust_parameters m c)) = min_interval c
   \<and> max_interval (snd (adjust_parameters m c)) = max_interval c
   \<and> adjustment_factor (snd (adjust_parameters m c)) = adjustment_factor c"
  by (simp add: adjust_parameters_def Let_def)

text \<open>
  Claim C5. \<open>adjust_parameters\<close> changes the interval by exactly one of three cases: above
  80 percent CPU the interval is multiplied by \<open>1 + k\<close> and clamped to the maximum; else
  below 40 percent CPU, when the interval is above the minimum, it is multiplied by
  \<open>1 - k\<close> and clamped to the minimum; else it stays. The factor \<open>k\<close> is 0.1 in every
  reachable controller, and the call changes neither \<open>k\<close> nor the two bounds. On the same
  snapshot the suggested timeout is the average processing time plus 1.0 s when the average
  exceeds 2.0 s, and 3.0 s otherwise.
\<close>

theorem adjust_parameters_cases:
  "(cpu_usage m > 80 \<longrightarrow>
      current_interval (snd (adjust_parameters m c)) =
        min (current_interval c * (1 + adjustment_factor c)) (max_interval c))
   \<and> (\<not> cpu_usage m > 80 \<and> cpu_usage m < 40 \<and> current_interval c > min_interval c \<longrightarrow>
      current_interval (snd (adjust_parameters m c)) =
        max (current_interval c * (1 - adjustment_factor c)) (min_interval c))
   \<and> (\<not> cpu_usage m > 80 \<and> \<not> (cpu_usage m < 40 \<and> current_interval c > min_interval c) \<longrightarrow>
      current_interval (snd (adjust_parameters m c)) = current_interval c)
   \<and> (avg_processing_time m > 2.0 \<longrightarrow>
      map_of (fst (adjust_parameters m c)) ''suggested_timeout'' = Some (avg_processing_time m + 1.0))
   \<and> (\<not> avg_processing_time m > 2.0 \<longrightarrow>
      map_of (fst (adjust_parameters m c)) ''suggested_timeout'' = Some 3.0)
   \<and> (reachable_controller c \<longrightarrow> adjustment_factor c = 0.1)
   \<and> min_interval (snd (adjust_parameters m c)) = min_interval c
   \<and> max_interval (snd (adjust_parameters m c)) = max_interval c
   \<and> adjustment_factor (snd (adjust_parameters m c)) = adjustment_factor c"
proof -
  have k: "reachable_controller c \<longrightarrow> adjustment_factor c = 0.1"
    using reachable_controller_params by blast
  show ?thesis
    using k adjust_parameters_constants [of m c]
    by (simp add: adjust_parameters_interval adjust_parameters_timeout)
qed

theorem adjust_parameters_cases_witness:
  "cpu_usage (initial_metrics\<lparr>cpu_usage := 90\<rparr>) > 80
   \<and> current_interval (snd (adjust_parameters (initial_metrics\<lparr>cpu_usage := 90\<rparr>) initial_controller)) = 2.2
   \<and> \<not> cpu_usage (initial_metrics\<lparr>cpu_usage := 20\<rparr>) > 80
   \<and> cpu_usage (initial_metrics\<lparr>cpu_usage := 20\<rparr>) < 40
   \<and> current_interval initial_controller > min_interval initial_controller
   \<and> current_interval (snd (adjust_parameters (initial_metrics\<lparr>cpu_usage := 20\<rparr>) initial_controller)) = 1.8
   \<and> \<not> cpu_usage (initial_metrics\<lparr>cpu_usage := 50, avg_processing_time := 2.5\<rparr>) < 40
   \<and> current_interval
        (snd (adjust_parameters (initial_metrics\<lparr>cpu_usage := 50, avg_processing_time := 2.5\<rparr>)
           initial_controller)) = 2.0
   \<and> avg_processing_time (initial_metrics\<lparr>cpu_usage := 50, avg_processing_time := 2.5\<rparr>) > 2.0
   \<and> map_of
        (fst (adjust_parameters (initial_metrics\<lparr>cpu_usage := 50, avg_processing_time := 2.5\<rparr>)
           initial_controller)) ''suggested_timeout'' = Some 3.5
   \<and> \<not> avg_processing_time (initial_metrics\<lparr>cpu_usage := 90\<rparr>) > 2.0
   \<and> map_of (fst (adjust_parameters (initial_metrics\<lparr>cpu_usage := 90\<rparr>) initial_controller))
        ''suggested_timeout'' = Some 3.0
   \<and> reachable_controller initial_controller
   \<and> adjustment_factor initial_controller = 0.1"
  using adjust_parameters_cases [of "initial_metrics\<lparr>cpu_usage := 90\<rparr>" initial_controller]
    adjust_parameters_cases [of "initial_metrics\<lparr>cpu_usage := 20\<rparr>" initial_controller]
    adjust_parameters_cases
      [of "initial_metrics\<lparr>cpu_usage := 50, avg_processing_time := 2.5\<rparr>" initial_controller]
    reachable_controller.start
  by (simp add: initial_metrics_def initial_controller_def)

lemma adjust_parameters_keeps_range:
  assumes "min_interval c \<le> current_interval c" "current_interval c \<le> max_interval c"
    and "0 \<le> min_interval c" "0 \<le> adjustment_factor c" "adjustment_factor c \<le> 1"
  shows "min_interval c \<le> current_interval (snd (adjust_parameters m c))
         \<and> current_interval (snd (adjust_parameters m c)) \<le> max_interval c"
proof -
  let ?i = "current_interval c" and ?k = "adjustment_factor c"
  have i0: "0 \<le> ?i" using assms by simp
  have up: "?i \<le> ?i * (1 + ?k)"
    using i0 assms(4) by (simp add: mult_left_mono algebra_simps)
  have down: "?i * (1 - ?k) \<le> ?i"
    using i0 assms(4) by (simp add: mult_left_mono algebra_simps)
  show ?thesis
    using assms up down by (auto simp: adjust_parameters_interval)
qed

lemma reachable_controller_range:
  "reachable_controller c \<Longrightarrow>
     min_interval c \<le> current_interval c \<and> current_interval c \<le> max_interval c"
proof (induction rule: reachable_controller.induct)
  case start
  show ?case by (simp add: initial_controller_def)
next
  case (adjust c m)
  have p: "min_interval c = 0.5 \<and> max_interval c = 10.0 \<and> adjustment_factor c = 0.1"
    using adjust.hyps by (rule reachable_controller_params)
  have "min_interval c \<le> current_interval (snd (adjust_parameters m c))
         \<and> current_interval (snd (adjust_parameters m c)) \<le> max_interval c"
    using adjust.IH p by (intro adjust_parameters_keeps_range) simp_all
  then show ?case
    using adjust_parameters_constants [of m c] by simp
qed

text \<open>
  The suggested timeout has no upper bound: whatever bound is proposed, one successful
  cycle that took long enough moves the average, and with it the suggestion, beyond it.
\<close>

lemma suggested_timeout_unbounded:
  "\<not> (\<exists>hi. \<forall>t\<ge>0. \<forall>d.
        map_of (fst (adjust_parameters (update_ocr_metrics t True initial_metrics) c))
          ''suggested_timeout'' = Some d \<longrightarrow> d \<le> hi)"
proof
  assume "\<exists>hi. \<forall>t\<ge>0. \<forall>d.
        map_of (fst (adjust_parameters (update_ocr_metrics t True initial_metrics) c))
          ''suggested_timeout'' = Some d \<longrightarrow> d \<le> hi"
  then obtain hi where hi: "\<And>t d. 0 \<le> t \<Longrightarrow>
        map_of (fst (adjust_parameters (update_ocr_metrics t True initial_metrics) c))
          ''suggested_timeout'' = Some d \<Longrightarrow> d \<le> hi"
    by blast
  define t where "t = 10 * (max hi 3)"
  have t0: "0 \<le> t" by (simp add: t_def)
  have avg: "avg_processing_time (update_ocr_metrics t True initial_metrics) = max hi 3"
    by (simp add: update_ocr_metrics_def initial_metrics_def Let_def t_def)
  have "map_of (fst (adjust_parameters (update_ocr_metrics t True initial_metrics) c))
          ''suggested_timeout'' = Some (max hi 3 + 1)"
    using less_max_iff_disj [of 2 hi 3] by (simp add: adjust_parameters_timeout avg)
  from hi [OF t0 this] show False by simp
qed

text \<open>
  Claim C6, as stated: interval and deadline both stay within the configured range. The
  only range the controller holds is that of the interval, from 0.5 to 10.0. After one
  successful cycle of 200 s the average processing time is 20 s and the suggested timeout
  is 21 s, above that range.
\<close>

theorem suggested_timeout_counterexample:
  "avg_processing_time (update_ocr_metrics 200 True initial_metrics) = 20
   \<and> map_of (fst (adjust_parameters (update_ocr_metrics 200 True initial_metrics) initial_controller))
        ''suggested_timeout'' = Some 21
   \<and> \<not> (21 \<le> max_interval initial_controller)"
  by (simp add: adjust_parameters_timeout update_ocr_metrics_def initial_metrics_def
      initial_controller_def Let_def)

text \<open>
  Claim C6, amended. In every reachable state of the controller the bounds are 0.5 and
  10.0 and the interval lies between them, so no sequence of adjustments takes the interval
  out of its range. The suggested timeout is bounded from below only: it is the larger of
  3.0 s and the average processing time plus 1.0 s.
\<close>

theorem control_parameters_bounds:
  "reachable_controller c \<Longrightarrow>
     min_interval c = 0.5 \<and> max_interval c = 10.0
     \<and> min_interval c \<le> current_interval c \<and> current_interval c \<le> max_interval c
     \<and> map_of (fst (adjust_parameters m c)) ''suggested_timeout'' =
         Some (max 3.0 (avg_processing_time m + 1.0))"
  using reachable_controller_params [of c] reachable_controller_range [of c]
  by (simp add: adjust_parameters_timeout max_def)

theorem control_parameters_bounds_witness:
  "reachable_controller (snd (adjust_parameters (initial_metrics\<lparr>cpu_usage := 90\<rparr>) initial_controller))
   \<and> current_interval (snd (adjust_parameters (initial_metrics\<lparr>cpu_usage := 90\<rparr>) initial_controller)) = 2.2
   \<and> (0.5::real) \<le> 2.2 \<and> (2.2::real) \<le> 10.0
   \<and> map_of
        (fst (adjust_parameters (initial_metrics\<lparr>avg_processing_time := 0.4\<rparr>)
          (snd (adjust_parameters (initial_metrics\<lparr>cpu_usage := 90\<rparr>) initial_controller))))
        ''suggested_timeout'' = Some 3.0"
proof -
  have r: "reachable_controller
             (snd (adjust_parameters (initial_metrics\<lparr>cpu_usage := 90\<rparr>) initial_controller))"
    by (rule reachable_controller.adjust) (rule reachable_controller.start)
  have i: "current_interval
             (snd (adjust_parameters (initial_metrics\<lparr>cpu_usage := 90\<rparr>) initial_controller)) = 2.2"
    by (simp add: adjust_parameters_interval initial_metrics_def initial_controller_def)
  show ?thesis
    using r i control_parameters_bounds [OF r, of "initial_metrics\<lparr>avg_processing_time := 0.4\<rparr>"]
    by (simp add: initial_metrics_def)
qed

subsection \<open>Performance statistics of a recogniser\<close>

text \<open>
  Claim C10. \<open>get_performance_stats\<close> never raises: with no calls recorded it reports a
  success rate and a timeout rate of 0 instead of dividing by zero; with calls recorded the
  rates are \<open>successful_calls / total_calls * 100\<close> and \<open>timeout_calls / total_calls * 100\<close>.
  The report copies the counters, and the object is the same after the call.
\<close>

theorem get_performance_stats_safe:
  "(\<exists>report. get_performance_stats s = Inr (report, s))
   \<and> (total_calls (performance_stats s) = 0 \<longrightarrow>
        get_performance_stats s = Inr (add_rates (performance_stats s) 0 0, s))
   \<and> (total_calls (performance_stats s) > 0 \<longrightarrow>
        get_performance_stats s =
          Inr (add_rates (performance_stats s)
                 (real_of_int (successful_calls (performance_stats s))
                    / real_of_int (total_calls (performance_stats s)) * 100)
                 (real_of_int (timeout_calls (performance_stats s))
                    / real_of_int (total_calls (performance_stats s)) * 100), s))
   \<and> success_rate (add_rates st sr tr) = sr \<and> timeout_rate (add_rates st sr tr) = tr
   \<and> total_calls (add_rates st sr tr) = total_calls st
   \<and> successful_calls (add_rates st sr tr) = successful_calls st
   \<and> timeout_calls (add_rates st sr tr) = timeout_calls st
   \<and> stats_avg_processing_time (add_rates st sr tr) = stats_avg_processing_time st"
  by (simp add: get_performance_stats_def py_truediv_def add_rates_def Let_def)

theorem get_performance_stats_safe_witness:
  "total_calls (performance_stats
      \<lparr>timeout = 5.0, performance_stats =
         \<lparr>total_calls = 0, successful_calls = 0, timeout_calls = 0,
          stats_avg_processing_time = 0\<rparr>\<rparr>) = 0
   \<and> get_performance_stats
        \<lparr>timeout = 5.0, performance_stats =
           \<lparr>total_calls = 0, successful_calls = 0, timeout_calls = 0,
            stats_avg_processing_time = 0\<rparr>\<rparr>
      = Inr (\<lparr>total_calls = 0, successful_calls = 0, timeout_calls = 0,
              stats_avg_processing_time = 0, success_rate = 0, timeout_rate = 0\<rparr>,
             \<lparr>timeout = 5.0, performance_stats =
                \<lparr>total_calls = 0, successful_calls = 0, timeout_calls = 0,
                 stats_avg_processing_time = 0\<rparr>\<rparr>)
   \<and> total_calls (performance_stats
      \<lparr>timeout = 5.0, performance_stats =
         \<lparr>total_calls = 4, successful_calls = 3, timeout_calls = 1,
          stats_avg_processing_time = 0.5\<rparr>\<rparr>) > 0
   \<and> get_performance_stats
        \<lparr>timeout = 5.0, performance_stats =
           \<lparr>total_calls = 4, successful_calls = 3, timeout_calls = 1,
            stats_avg_processing_time = 0.5\<rparr>\<rparr>
      = Inr (\<lparr>total_calls = 4, successful_calls = 3, timeout_calls = 1,
              stats_avg_processing_time = 0.5, success_rate = 75, timeout_rate = 25\<rparr>,
             \<lparr>timeout = 5.0, performance_stats =
                \<lparr>total_calls = 4, successful_calls = 3, timeout_calls = 1,
                 stats_avg_processing_time = 0.5\<rparr>\<rparr>)"
  using get_performance_stats_safe
      [of "\<lparr>timeout = 5.0, performance_stats =
             \<lparr>total_calls = 0, successful_calls = 0, timeout_calls = 0,
              stats_avg_processing_time = 0\<rparr>\<rparr>"]
    get_performance_stats_safe
      [of "\<lparr>timeout = 5.0, performance_stats =
             \<lparr>total_calls = 4, successful_calls = 3, timeout_calls = 1,
              stats_avg_processing_time = 0.5\<rparr>\<rparr>"]
  by (simp add: add_rates_def)

subsection \<open>Batch recognition\<close>

lemma collect_results_map:
  "collect_results futures results =
     results @ map (\<lambda>f. case f of FutureResult result \<Rightarrow> result
                              | FutureTimeout \<Rightarrow> '''' | FutureError \<Rightarrow> '''') futures"
  by (induction futures results rule: collect_results.induct) simp_all

lemma batch_ocr_map:
  "batch_ocr submit images =
     map (\<lambda>(i, img). case submit i img of FutureResult result \<Rightarrow> result
                        | FutureTimeout \<Rightarrow> '''' | FutureError \<Rightarrow> '''')
       (enumerate 0 images)"
  by (simp add: batch_ocr_def collect_results_map case_prod_unfold comp_def)

text \<open>
  Claim C7. \<open>batch_ocr\<close> on \<open>n\<close> images returns \<open>n\<close> results, the \<open>i\<close>-th result being that
  of the \<open>i\<close>-th image: its text, or the empty string when its future timed out or raised,
  which leaves the other items as they are. On an empty list of images the result is empty.
\<close>

theorem batch_ocr_results:
  "length (batch_ocr submit images) = length images
   \<and> (\<forall>i < length images.
         batch_ocr submit images ! i =
           (case submit i (images ! i) of
              FutureResult result \<Rightarrow> result
            | FutureTimeout \<Rightarrow> ''''
            | FutureError \<Rightarrow> ''''))
   \<and> batch_ocr submit [] = []"
  by (simp add: batch_ocr_map nth_enumerate_eq)

theorem batch_ocr_results_witness:
  "batch_ocr (\<lambda>i img. if i = 1 then FutureTimeout else if i = 2 then FutureError
                        else FutureResult img) [''a'', ''b'', ''c'', ''d'']
     = [''a'', '''', '''', ''d'']
   \<and> (1::nat) < length [''a'', ''b'', ''c'', ''d'']
   \<and> batch_ocr (\<lambda>i img. if i = 1 then FutureTimeout else if i = 2 then FutureError
                        else FutureResult img) [''a'', ''b'', ''c'', ''d''] ! 1 = ''''"
  using batch_ocr_results
    [of "\<lambda>i img. if i = 1 then FutureTimeout else if i = 2 then FutureError else FutureResult img"
        "[''a'', ''b'', ''c'', ''d'']"]
  by (simp add: batch_ocr_def enumerate_eq_zip upt_rec)

subsection \<open>Startup and the main loop\<close>














subsection \<open>The result cache\<close>

lemma update_fresh: "k \<notin> fst ` set c \<Longrightarrow> AList.update k v c = c @ [(k, v)]"
  by (induction c) auto

lemma length_update_le: "length (AList.update k v c) \<le> Suc (length c)"
  by (induction c) auto

lemma set_update_subset: "set (AList.update k v c) \<subseteq> insert (k, v) (set c)"
  by (induction c) auto

lemma set_delete_subset: "set (AList.delete k c) \<subseteq> set c"
  by (induction c) auto

lemma cache_put_no_error: "fst (cache_put k v limit c) = None"
  by (cases "AList.update k v c") (auto simp: cache_put_def Let_def)

lemma cache_put_length:
  assumes "int (length c) \<le> limit"
  shows "int (length (snd (cache_put k v limit c))) \<le> limit"
proof (cases "AList.update k v c")
  case Nil
  then show ?thesis by simp
next
  case (Cons p rest)
  obtain ok ov where p: "p = (ok, ov)" by (cases p)
  have "length rest \<le> length c"
    using length_update_le [of k v c] Cons by simp
  moreover have "length (AList.delete ok rest) \<le> length rest"
    by (rule length_delete_le)
  ultimately show ?thesis
    using assms Cons p by (simp add: cache_put_def Let_def)
qed

lemma cache_put_distinct:
  assumes "distinct (map fst c)"
  shows "distinct (map fst (snd (cache_put k v limit c)))"
proof -
  have d: "distinct (map fst (AList.update k v c))"
    using assms by (rule distinct_update)
  show ?thesis
  proof (cases "AList.update k v c")
    case Nil
    then show ?thesis by simp
  next
    case (Cons p rest)
    obtain ok ov where p: "p = (ok, ov)" by (cases p)
    have "distinct (map fst (AList.delete ok (AList.update k v c)))"
      using d by (rule distinct_delete)
    then show ?thesis
      using d Cons p by (auto simp: cache_put_def Let_def)
  qed
qed

lemma cache_put_fresh:
  assumes "distinct (map fst c)" "k \<notin> fst ` set c"
  shows "snd (cache_put k v limit c) =
           (if int (length c) + 1 > limit then tl (c @ [(k, v)]) else c @ [(k, v)])"
proof -
  have u: "AList.update k v c = c @ [(k, v)]"
    using assms(2) by (rule update_fresh)
  have d: "distinct (map fst (c @ [(k, v)]))"
    using assms by auto
  show ?thesis
  proof (cases "c @ [(k, v)]")
    case Nil
    then show ?thesis by simp
  next
    case (Cons p rest)
    obtain ok ov where p: "p = (ok, ov)" by (cases p)
    have "ok \<notin> fst ` set rest"
      using d Cons p by auto
    then have "AList.delete ok rest = rest" by simp
    moreover have "length (c @ [(k, v)]) = Suc (length c)" by simp
    ultimately show ?thesis
      using u Cons p by (simp add: cache_put_def Let_def del: length_append)
  qed
qed

lemma cache_put_set: "set (snd (cache_put k v limit c)) \<subseteq> set (AList.update k v c)"
proof (cases "AList.update k v c")
  case Nil
  then show ?thesis by simp
next
  case (Cons p rest)
  obtain ok ov where p: "p = (ok, ov)" by (cases p)
  have "set (AList.delete ok rest) \<subseteq> set rest"
    by (rule set_delete_subset)
  then show ?thesis
    using Cons p by (auto simp: cache_put_def Let_def)
qed

lemma cache_put_keys: "fst ` set (snd (cache_put k v limit c)) \<subseteq> insert k (fst ` set c)"
proof -
  have "set (snd (cache_put k v limit c)) \<subseteq> insert (k, v) (set c)"
    using cache_put_set [of k v limit c] set_update_subset [of k v c] by blast
  then have "fst ` set (snd (cache_put k v limit c)) \<subseteq> fst ` insert (k, v) (set c)"
    by (rule image_mono)
  then show ?thesis by simp
qed

lemma cache_put_all_fresh:
  assumes "distinct (map fst (c @ kvs))" "int (length c) \<le> limit"
  shows "cache_put_all kvs limit c = drop (length c + length kvs - nat limit) (c @ kvs)"
  using assms
proof (induction kvs arbitrary: c)
  case Nil
  then show ?case by simp
next
  case (Cons kv kvs)
  obtain k v where kv: "kv = (k, v)" by (cases kv)
  let ?c' = "snd (cache_put k v limit c)"
  have dc: "distinct (map fst c)" and fresh: "k \<notin> fst ` set c"
    using Cons.prems(1) kv by auto
  have c': "?c' = (if int (length c) + 1 > limit then tl (c @ [(k, v)]) else c @ [(k, v)])"
    using dc fresh by (rule cache_put_fresh)
  have len: "int (length ?c') \<le> limit"
    using Cons.prems(2) by (rule cache_put_length)
  have keys: "fst ` set ?c' \<subseteq> insert k (fst ` set c)"
    by (rule cache_put_keys)
  have "distinct (map fst ?c')"
    using dc by (rule cache_put_distinct)
  moreover have "fst ` set ?c' \<inter> fst ` set kvs = {}"
  proof -
    have a: "k \<notin> fst ` set kvs" and b: "fst ` set c \<inter> fst ` set kvs = {}"
      using Cons.prems(1) kv by auto
    show ?thesis using keys a b by blast
  qed
  moreover have "distinct (map fst kvs)"
    using Cons.prems(1) by simp
  ultimately have "distinct (map fst (?c' @ kvs))" by auto
  then have IH: "cache_put_all kvs limit ?c' = drop (length ?c' + length kvs - nat limit) (?c' @ kvs)"
    using len by (rule Cons.IH)
  show ?case
  proof (cases "int (length c) + 1 > limit")
    case True
    then have full: "length c = nat limit" "0 \<le> limit"
      using Cons.prems(2) by auto
    have t: "?c' = tl (c @ [(k, v)])" using c' True by simp
    have "tl (c @ [(k, v)]) @ kvs = tl (c @ (k, v) # kvs)"
      by (cases c) simp_all
    then have "?c' @ kvs = tl (c @ (k, v) # kvs)"
      by (simp only: t)
    moreover have "length ?c' + length kvs - nat limit = length kvs"
      using full by (simp add: t)
    ultimately have "cache_put_all kvs limit ?c' = drop (length kvs) (tl (c @ (k, v) # kvs))"
      using IH by simp
    also have "\<dots> = drop (Suc (length kvs)) (c @ (k, v) # kvs)"
      by (simp only: drop_Suc)
    also have "Suc (length kvs) = length c + length (kv # kvs) - nat limit"
      using full by simp
    finally show ?thesis
      using kv by simp
  next
    case False
    then have t: "?c' = c @ [(k, v)]" using c' by simp
    show ?thesis
      using IH kv by (simp add: t)
  qed
qed

lemma cache_put_all_overflow:
  assumes "distinct (map fst (c @ kvs))" "int (length c) \<le> limit" "int (length kvs) = limit + 1"
  shows "cache_put_all kvs limit c = tl kvs"
proof -
  have "length c + length kvs - nat limit = Suc (length c)"
    using assms(2,3) by auto
  then have "cache_put_all kvs limit c = drop (Suc (length c)) (c @ kvs)"
    using cache_put_all_fresh [OF assms(1,2)] by simp
  then show ?thesis by (simp add: drop_Suc drop_tl)
qed

lemma cache_put_all_length:
  "int (length c) \<le> limit \<Longrightarrow> int (length (cache_put_all kvs limit c)) \<le> limit"
proof (induction kvs arbitrary: c)
  case Nil
  then show ?case by simp
next
  case (Cons kv kvs)
  obtain k v where kv: "kv = (k, v)" by (cases kv)
  have "int (length (snd (cache_put k v limit c))) \<le> limit"
    using Cons.prems by (rule cache_put_length)
  then show ?case
    using Cons.IH kv by simp
qed

lemma cache_put_present:
  assumes "k \<in> fst ` set c" "int (length c) \<le> limit"
  shows "map fst (snd (cache_put k v limit c)) = map fst c"
proof -
  have keys: "map fst (AList.update k v c) = map fst c"
    using assms(1) by (simp add: update_keys)
  then have "length (AList.update k v c) = length c"
    by (metis length_map)
  then show ?thesis
    using assms(2) keys by (simp add: cache_put_def Let_def)
qed

lemma fast_ocr_hit:
  "\<not> force_process \<Longrightarrow> is_similar_to_cached image_hash s \<Longrightarrow>
     fast_ocr image_hash force_process outcome s = (cache_get image_hash (text_cache s), s)"
  by (simp add: fast_ocr_def)

lemma ocr_with_timeout_more:
  "text_cache (snd (ocr_with_timeout outcome s)) = text_cache s
   \<and> cache_size (snd (ocr_with_timeout outcome s)) = cache_size s"
  by (cases outcome) (simp_all add: ocr_with_timeout_def Let_def)

lemma fast_ocr_cache_size: "cache_size (snd (fast_ocr h fp outcome s)) = cache_size s"
  using ocr_with_timeout_more [of outcome s]
  by (auto simp: fast_ocr_def Let_def split: prod.splits option.splits)

lemma fast_ocr_text_cache:
  "text_cache (snd (fast_ocr h fp outcome s)) =
     (if \<not> fp \<and> is_similar_to_cached h s then text_cache s
      else if truthy_hash h \<and> fst (ocr_with_timeout outcome s) \<noteq> []
      then snd (cache_put (the h) (fst (ocr_with_timeout outcome s)) (cache_size s) (text_cache s))
      else text_cache s)"
  using ocr_with_timeout_more [of outcome s]
  by (auto simp: fast_ocr_def Let_def truthy_hash_def split: prod.splits option.splits)

lemma fast_ocr_result:
  "fst (fast_ocr h fp outcome s) =
     (if \<not> fp \<and> is_similar_to_cached h s then cache_get h (text_cache s)
      else fst (ocr_with_timeout outcome s))"
  using cache_put_no_error
  by (auto simp: fast_ocr_def Let_def truthy_hash_def split: prod.splits option.splits)
    (metis fst_conv option.distinct(1))+

text \<open>
  Claim C3. The cache is bounded and first-in first-out. A store into a cache of at most
  \<open>limit\<close> entries leaves at most \<open>limit\<close> entries and never raises, so a cache grown from
  the empty one never holds more than \<open>limit\<close> entries. Storing \<open>limit + 1\<close>
  fingerprints, distinct from each other and from those present, leaves exactly the last
  \<open>limit\<close> of them, in the order of their insertion; a store of a new fingerprint into a
  full cache drops the oldest entry only, and a store to a fingerprint that is present
  keeps the order of the keys. A lookup that hits returns the cached text and the
  object as it was, so reading an entry does not change what is evicted next. On a miss with
  a usable fingerprint and a non-empty result, \<open>fast_ocr\<close> performs exactly this store, and
  it keeps the bound.
\<close>

theorem text_cache_fifo:
  "(int (length cache) \<le> limit \<longrightarrow> int (length (snd (cache_put k v limit cache))) \<le> limit)
   \<and> fst (cache_put k v limit cache) = None
   \<and> (distinct (map fst (cache @ kvs)) \<and> int (length cache) \<le> limit
        \<and> int (length kvs) = limit + 1 \<longrightarrow>
        cache_put_all kvs limit cache = tl kvs)
   \<and> (distinct (map fst cache) \<and> k \<notin> fst ` set cache \<and> cache \<noteq> []
        \<and> int (length cache) = limit \<longrightarrow>
        snd (cache_put k v limit cache) = tl cache @ [(k, v)])
   \<and> (\<not> force_process \<and> is_similar_to_cached image_hash s \<longrightarrow>
        fast_ocr image_hash force_process outcome s = (cache_get image_hash (text_cache s), s))
   \<and> (truthy_hash image_hash \<and> (force_process \<or> \<not> is_similar_to_cached image_hash s)
        \<and> fst (ocr_with_timeout outcome s) \<noteq> [] \<longrightarrow>
        text_cache (snd (fast_ocr image_hash force_process outcome s)) =
          snd (cache_put (the image_hash) (fst (ocr_with_timeout outcome s)) (cache_size s)
                 (text_cache s)))
   \<and> (int (length (text_cache s)) \<le> cache_size s \<longrightarrow>
        int (length (text_cache (snd (fast_ocr image_hash force_process outcome s))))
          \<le> cache_size (snd (fast_ocr image_hash force_process outcome s)))
   \<and> (0 \<le> limit \<longrightarrow> int (length (cache_put_all kvs limit [])) \<le> limit)
   \<and> (k \<in> fst ` set cache \<and> int (length cache) \<le> limit \<longrightarrow>
        map fst (snd (cache_put k v limit cache)) = map fst cache)"
proof -
  have a: "int (length cache) \<le> limit \<longrightarrow> int (length (snd (cache_put k v limit cache))) \<le> limit"
    using cache_put_length by blast
  have b: "distinct (map fst (cache @ kvs)) \<and> int (length cache) \<le> limit
        \<and> int (length kvs) = limit + 1 \<longrightarrow> cache_put_all kvs limit cache = tl kvs"
    using cache_put_all_overflow by blast
  have c: "distinct (map fst cache) \<and> k \<notin> fst ` set cache \<and> cache \<noteq> []
        \<and> int (length cache) = limit \<longrightarrow>
        snd (cache_put k v limit cache) = tl cache @ [(k, v)]"
  proof (intro impI, elim conjE)
    assume h: "distinct (map fst cache)" "k \<notin> fst ` set cache" "cache \<noteq> []"
      "int (length cache) = limit"
    have "snd (cache_put k v limit cache) = tl (cache @ [(k, v)])"
      using cache_put_fresh [OF h(1,2), of v limit] h(4) by simp
    then show "snd (cache_put k v limit cache) = tl cache @ [(k, v)]"
      using h(3) by simp
  qed
  have d: "\<not> force_process \<and> is_similar_to_cached image_hash s \<longrightarrow>
        fast_ocr image_hash force_process outcome s = (cache_get image_hash (text_cache s), s)"
    using fast_ocr_hit by blast
  have e: "truthy_hash image_hash \<and> (force_process \<or> \<not> is_similar_to_cached image_hash s)
        \<and> fst (ocr_with_timeout outcome s) \<noteq> [] \<longrightarrow>
        text_cache (snd (fast_ocr image_hash force_process outcome s)) =
          snd (cache_put (the image_hash) (fst (ocr_with_timeout outcome s)) (cache_size s)
                 (text_cache s))"
    by (auto simp: fast_ocr_text_cache)
  have f: "int (length (text_cache s)) \<le> cache_size s \<longrightarrow>
        int (length (text_cache (snd (fast_ocr image_hash force_process outcome s))))
          \<le> cache_size (snd (fast_ocr image_hash force_process outcome s))"
    using cache_put_length [of "text_cache s" "cache_size s"]
    by (simp add: fast_ocr_text_cache fast_ocr_cache_size)
  have g: "0 \<le> limit \<longrightarrow> int (length (cache_put_all kvs limit [])) \<le> limit"
    using cache_put_all_length [of "[]" limit kvs] by simp
  have h: "k \<in> fst ` set cache \<and> int (length cache) \<le> limit \<longrightarrow>
        map fst (snd (cache_put k v limit cache)) = map fst cache"
    using cache_put_present by blast
  show ?thesis
    using a b c d e f g h cache_put_no_error [of k v limit cache] by blast
qed

theorem text_cache_fifo_witness:
  "int (length [(1, ''a''), (2, ''b'')]) \<le> (2::int)
   \<and> distinct (map fst ([(1::int, ''a''), (2, ''b'')] @ [(3, ''c''), (4, ''d''), (5, ''e'')]))
   \<and> int (length [(3::int, ''c''), (4, ''d''), (5, ''e'')]) = 2 + 1
   \<and> cache_put_all [(3, ''c''), (4, ''d''), (5, ''e'')] 2 [(1, ''a''), (2, ''b'')]
       = [(4, ''d''), (5, ''e'')]
   \<and> snd (cache_put 3 ''c'' 2 [(1, ''a''), (2, ''b'')]) = [(2, ''b''), (3, ''c'')]
   \<and> is_similar_to_cached (Some 1)
        ((new_fast_screen_ocr 3.0 2)\<lparr>text_cache := [(1, ''one''), (2, ''two'')]\<rparr>)
   \<and> fast_ocr (Some 1) False StillAlive
        ((new_fast_screen_ocr 3.0 2)\<lparr>text_cache := [(1, ''one''), (2, ''two'')]\<rparr>)
       = (''one'', (new_fast_screen_ocr 3.0 2)\<lparr>text_cache := [(1, ''one''), (2, ''two'')]\<rparr>)
   \<and> \<not> is_similar_to_cached (Some 3)
        ((new_fast_screen_ocr 3.0 2)\<lparr>text_cache := [(1, ''one''), (2, ''two'')]\<rparr>)
   \<and> text_cache (snd (fast_ocr (Some 3) False (WorkerResult ''three'' 0.1)
        (snd (fast_ocr (Some 1) False StillAlive
           ((new_fast_screen_ocr 3.0 2)\<lparr>text_cache := [(1, ''one''), (2, ''two'')]\<rparr>)))))
       = [(2, ''two''), (3, ''three'')]
   \<and> (0::int) \<le> 2
   \<and> cache_put_all [(3, ''c''), (4, ''d''), (5, ''e'')] 2 [] = [(4, ''d''), (5, ''e'')]
   \<and> (2::int) \<in> fst ` set [(1, ''a''), (2, ''b'')]
   \<and> snd (cache_put 2 ''z'' 2 [(1, ''a''), (2, ''b'')]) = [(1, ''a''), (2, ''z'')]"
proof -
  let ?s = "(new_fast_screen_ocr 3.0 2)\<lparr>text_cache := [(1, ''one''), (2, ''two'')]\<rparr>"
  have strip: "py_strip ''three'' = ''three''"
    by (simp add: py_strip_def is_space_def)
  have hit: "is_similar_to_cached (Some 1) ?s"
    by (simp add: is_similar_to_cached_def truthy_hash_def new_fast_screen_ocr_def)
  have miss: "\<not> is_similar_to_cached (Some 3) ?s"
    by (simp add: is_similar_to_cached_def truthy_hash_def new_fast_screen_ocr_def)
  have ocr: "fst (ocr_with_timeout (WorkerResult ''three'' 0.1) ?s) = ''three''"
    by (simp add: ocr_with_timeout_def Let_def strip)
  note w1 = text_cache_fifo [of "[(1, ''a''), (2, ''b'')]" 2 3 "''c''"
      "[(3, ''c''), (4, ''d''), (5, ''e'')]" False "Some 1" ?s StillAlive]
  note w2 = text_cache_fifo [of "[(1, ''a''), (2, ''b'')]" 2 3 "''c''"
      "[(3, ''c''), (4, ''d''), (5, ''e'')]" False "Some 3" ?s "WorkerResult ''three'' 0.1"]
  have get: "fast_ocr (Some 1) False StillAlive ?s = (''one'', ?s)"
    using w1 [THEN conjunct2, THEN conjunct2, THEN conjunct2, THEN conjunct2, THEN conjunct1] hit
    by (simp add: cache_get_def)
  have put: "text_cache (snd (fast_ocr (Some 3) False (WorkerResult ''three'' 0.1) ?s))
      = [(2, ''two''), (3, ''three'')]"
    using w2 [THEN conjunct2, THEN conjunct2, THEN conjunct2, THEN conjunct2, THEN conjunct2,
        THEN conjunct1] miss ocr
    by (simp add: truthy_hash_def cache_put_def new_fast_screen_ocr_def)
  have all: "cache_put_all [(3, ''c''), (4, ''d''), (5, ''e'')] 2 [(1, ''a''), (2, ''b'')]
       = [(4, ''d''), (5, ''e'')]"
    using w1 [THEN conjunct2, THEN conjunct2, THEN conjunct1] by simp
  have one: "snd (cache_put 3 ''c'' 2 [(1, ''a''), (2, ''b'')]) = [(2, ''b''), (3, ''c'')]"
    using w1 [THEN conjunct2, THEN conjunct2, THEN conjunct2, THEN conjunct1] by simp
  have empty: "cache_put_all [(3, ''c''), (4, ''d''), (5, ''e'')] 2 [] = [(4, ''d''), (5, ''e'')]"
    using text_cache_fifo [of "[]" 2 3 "''c''" "[(3, ''c''), (4, ''d''), (5, ''e'')]",
        THEN conjunct2, THEN conjunct2, THEN conjunct1]
    by simp
  have again: "snd (cache_put 2 ''z'' 2 [(1, ''a''), (2, ''b'')]) = [(1, ''a''), (2, ''z'')]"
    by (simp add: cache_put_def)
  show ?thesis
    using hit miss get put all one empty again by simp
qed

lemma is_similar_to_cached_cong:
  "text_cache s = text_cache t \<Longrightarrow> is_similar_to_cached h s = is_similar_to_cached h t"
  by (simp add: is_similar_to_cached_def split: option.splits)

lemma ocr_with_timeout_total_calls:
  "total_calls (performance_stats (snd (ocr_with_timeout outcome s))) =
     total_calls (performance_stats s) + 1"
  by (cases outcome) (simp_all add: ocr_with_timeout_def Let_def)

lemma fast_ocr_performance_stats:
  "performance_stats (snd (fast_ocr h fp outcome s)) =
     (if \<not> fp \<and> is_similar_to_cached h s then performance_stats s
      else performance_stats (snd (ocr_with_timeout outcome s)))"
  by (auto simp: fast_ocr_def Let_def split: prod.splits option.splits)

lemma cache_put_values:
  assumes "\<forall>(k, t) \<in> set c. t \<noteq> []" "v \<noteq> []"
  shows "\<forall>(k, t) \<in> set (snd (cache_put h v limit c)). t \<noteq> []"
proof -
  have "set (snd (cache_put h v limit c)) \<subseteq> insert (h, v) (set c)"
    using cache_put_set [of h v limit c] set_update_subset [of h v c] by blast
  then show ?thesis
    using assms by auto
qed

lemma cache_get_nonempty:
  assumes "\<forall>(k, t) \<in> set (text_cache s). t \<noteq> []" "is_similar_to_cached h s"
  shows "cache_get h (text_cache s) \<noteq> []"
proof -
  obtain k where h: "h = Some k" and k: "k \<in> fst ` set (text_cache s)"
    using assms(2)
    by (cases h) (auto simp: is_similar_to_cached_def truthy_hash_def split: if_splits)
  then obtain t where t: "map_of (text_cache s) k = Some t"
    by (metis map_of_eq_None_iff not_Some_eq)
  then have "(k, t) \<in> set (text_cache s)"
    by (rule map_of_SomeD)
  then have "t \<noteq> []"
    using assms(1) by auto
  then show ?thesis
    by (simp add: cache_get_def h t)
qed

lemmas fast_ocr_eval =
  fast_ocr_def ocr_with_timeout_def cache_put_def cache_get_def is_similar_to_cached_def
  truthy_hash_def py_strip_def is_space_def new_fast_screen_ocr_def Let_def

text \<open>
  Claim C9, as stated: a frame whose recognition timed out is retried on the next
  occurrence of its fingerprint. With fingerprint 5 cached from an earlier success, a call
  with \<^verbatim>\<open>force_process=True\<close> that times out returns the empty string and leaves the entry;
  the next ordinary call with fingerprint 5 is answered from the cache, and the counters
  show that no recognition was attempted.
\<close>

theorem forced_timeout_counterexample:
  "snd (fast_ocr (Some 5) False (WorkerResult ''abc'' 0.2) (new_fast_screen_ocr 3.0 50)) =
     \<lparr>timeout = 3.0,
      performance_stats =
        \<lparr>total_calls = 1, successful_calls = 1, timeout_calls = 0,
         stats_avg_processing_time = 0.02\<rparr>,
      cache_size = 50, text_cache = [(5, ''abc'')]\<rparr>
   \<and> fast_ocr (Some 5) True StillAlive
        \<lparr>timeout = 3.0,
         performance_stats =
           \<lparr>total_calls = 1, successful_calls = 1, timeout_calls = 0,
            stats_avg_processing_time = 0.02\<rparr>,
         cache_size = 50, text_cache = [(5, ''abc'')]\<rparr> =
       ('''',
        \<lparr>timeout = 3.0,
         performance_stats =
           \<lparr>total_calls = 2, successful_calls = 1, timeout_calls = 1,
            stats_avg_processing_time = 0.02\<rparr>,
         cache_size = 50, text_cache = [(5, ''abc'')]\<rparr>)
   \<and> fast_ocr (Some 5) False (WorkerResult ''abc'' 0.2)
        \<lparr>timeout = 3.0,
         performance_stats =
           \<lparr>total_calls = 2, successful_calls = 1, timeout_calls = 1,
            stats_avg_processing_time = 0.02\<rparr>,
         cache_size = 50, text_cache = [(5, ''abc'')]\<rparr> =
       (''abc'',
        \<lparr>timeout = 3.0,
         performance_stats =
           \<lparr>total_calls = 2, successful_calls = 1, timeout_calls = 1,
            stats_avg_processing_time = 0.02\<rparr>,
         cache_size = 50, text_cache = [(5, ''abc'')]\<rparr>)"
  by (simp add: fast_ocr_eval)

text \<open>
  Claim C9, amended. \<open>fast_ocr\<close> changes the cache only when the fingerprint was computed
  and the result is non-empty, so a cache without empty texts stays without them and a hit
  never returns the empty string; a timeout, a worker error or a missing result gives the
  empty string. When the fingerprint was not in the cache before a call that returned the
  empty string, it is not in the cache afterwards, and the next call with that fingerprint
  runs the recognition again.
\<close>

theorem fast_ocr_caches_no_empty_result:
  "(text_cache (snd (fast_ocr h fp outcome s)) \<noteq> text_cache s \<longrightarrow>
      h \<noteq> None \<and> fst (fast_ocr h fp outcome s) \<noteq> [])
   \<and> ((\<forall>(k, t) \<in> set (text_cache s). t \<noteq> []) \<longrightarrow>
      (\<forall>(k, t) \<in> set (text_cache (snd (fast_ocr h fp outcome s))). t \<noteq> []))
   \<and> ((\<forall>(k, t) \<in> set (text_cache s). t \<noteq> []) \<and> \<not> fp \<and> is_similar_to_cached h s \<longrightarrow>
      fst (fast_ocr h fp outcome s) \<noteq> [])
   \<and> ((fp \<or> \<not> is_similar_to_cached h s)
        \<and> outcome \<in> {StillAlive, WorkerError msg, NoOutput, OuterError} \<longrightarrow>
      fst (fast_ocr h fp outcome s) = [])
   \<and> (\<not> is_similar_to_cached h s \<and> fst (fast_ocr h fp outcome s) = [] \<longrightarrow>
      \<not> is_similar_to_cached h (snd (fast_ocr h fp outcome s))
      \<and> total_calls (performance_stats
            (snd (fast_ocr h fp' outcome' (snd (fast_ocr h fp outcome s))))) =
          total_calls (performance_stats (snd (fast_ocr h fp outcome s))) + 1)"
proof -
  let ?s' = "snd (fast_ocr h fp outcome s)"
  have a: "text_cache ?s' \<noteq> text_cache s \<longrightarrow> h \<noteq> None \<and> fst (fast_ocr h fp outcome s) \<noteq> []"
    by (auto simp: fast_ocr_text_cache fast_ocr_result truthy_hash_def
        split: if_splits option.splits)
  have b: "(\<forall>(k, t) \<in> set (text_cache s). t \<noteq> []) \<longrightarrow>
      (\<forall>(k, t) \<in> set (text_cache ?s'). t \<noteq> [])"
    using cache_put_values [of "text_cache s" "fst (ocr_with_timeout outcome s)" "the h" "cache_size s"]
    by (simp add: fast_ocr_text_cache)
  have c: "(\<forall>(k, t) \<in> set (text_cache s). t \<noteq> []) \<and> \<not> fp \<and> is_similar_to_cached h s \<longrightarrow>
      fst (fast_ocr h fp outcome s) \<noteq> []"
    using cache_get_nonempty [of s h] by (simp add: fast_ocr_result)
  have d: "(fp \<or> \<not> is_similar_to_cached h s)
        \<and> outcome \<in> {StillAlive, WorkerError msg, NoOutput, OuterError} \<longrightarrow>
      fst (fast_ocr h fp outcome s) = []"
    by (auto simp: fast_ocr_result ocr_with_timeout_def Let_def)
  have e: "\<not> is_similar_to_cached h s \<and> fst (fast_ocr h fp outcome s) = [] \<longrightarrow>
      \<not> is_similar_to_cached h ?s'
      \<and> total_calls (performance_stats (snd (fast_ocr h fp' outcome' ?s'))) =
          total_calls (performance_stats ?s') + 1"
  proof (intro impI, elim conjE)
    assume miss: "\<not> is_similar_to_cached h s" and empty: "fst (fast_ocr h fp outcome s) = []"
    have "fst (ocr_with_timeout outcome s) = []"
      using miss empty by (simp add: fast_ocr_result)
    then have "text_cache ?s' = text_cache s"
      by (simp add: fast_ocr_text_cache)
    then have miss': "\<not> is_similar_to_cached h ?s'"
      using miss is_similar_to_cached_cong [of ?s' s h] by simp
    then show "\<not> is_similar_to_cached h ?s'
      \<and> total_calls (performance_stats (snd (fast_ocr h fp' outcome' ?s'))) =
          total_calls (performance_stats ?s') + 1"
      by (simp add: fast_ocr_performance_stats ocr_with_timeout_total_calls)
  qed
  show ?thesis
    using a b c d e by blast
qed

theorem fast_ocr_caches_no_empty_result_witness:
  "text_cache (snd (fast_ocr (Some 5) False (WorkerResult ''abc'' 0.2) (new_fast_screen_ocr 3.0 50)))
     \<noteq> text_cache (new_fast_screen_ocr 3.0 50)
   \<and> fst (fast_ocr (Some 5) False (WorkerResult ''abc'' 0.2) (new_fast_screen_ocr 3.0 50)) = ''abc''
   \<and> text_cache ((new_fast_screen_ocr 3.0 50)\<lparr>text_cache := [(5, ''abc'')]\<rparr>) = [(5, ''abc'')]
   \<and> is_similar_to_cached (Some 5) ((new_fast_screen_ocr 3.0 50)\<lparr>text_cache := [(5, ''abc'')]\<rparr>)
   \<and> fst (fast_ocr (Some 5) False StillAlive
        ((new_fast_screen_ocr 3.0 50)\<lparr>text_cache := [(5, ''abc'')]\<rparr>)) \<noteq> []
   \<and> \<not> is_similar_to_cached (Some 5) (new_fast_screen_ocr 3.0 50)
   \<and> StillAlive \<in> {StillAlive, WorkerError ''e'', NoOutput, OuterError}
   \<and> fst (fast_ocr (Some 5) False StillAlive (new_fast_screen_ocr 3.0 50)) = []
   \<and> total_calls (performance_stats
        (snd (fast_ocr (Some 5) False StillAlive
           (snd (fast_ocr (Some 5) False StillAlive (new_fast_screen_ocr 3.0 50)))))) = 2"
proof -
  let ?s0 = "new_fast_screen_ocr 3.0 50"
  let ?s1 = "(new_fast_screen_ocr 3.0 50)\<lparr>text_cache := [(5, ''abc'')]\<rparr>"
  have changed: "text_cache (snd (fast_ocr (Some 5) False (WorkerResult ''abc'' 0.2) ?s0))
      \<noteq> text_cache ?s0"
    by (simp add: fast_ocr_eval)
  have inv: "\<forall>(k, t) \<in> set (text_cache ?s1). t \<noteq> []"
    by simp
  have hit: "is_similar_to_cached (Some 5) ?s1"
    by (simp add: fast_ocr_eval)
  have miss: "\<not> is_similar_to_cached (Some 5) ?s0"
    by (simp add: fast_ocr_eval)
  have calls0: "total_calls (performance_stats (snd (fast_ocr (Some 5) False StillAlive ?s0))) = 1"
    by (simp add: fast_ocr_eval)
  note w1 = fast_ocr_caches_no_empty_result [of "Some 5" False "WorkerResult ''abc'' 0.2" ?s0]
  note w2 = fast_ocr_caches_no_empty_result [of "Some 5" False StillAlive ?s1]
  note w3 = fast_ocr_caches_no_empty_result
    [of "Some 5" False StillAlive ?s0 "''e''" False StillAlive]
  have r1: "fst (fast_ocr (Some 5) False (WorkerResult ''abc'' 0.2) ?s0) = ''abc''"
    using w1 [THEN conjunct1] changed by (simp add: fast_ocr_eval)
  have r2: "fst (fast_ocr (Some 5) False StillAlive ?s1) \<noteq> []"
    using w2 [THEN conjunct2, THEN conjunct2, THEN conjunct1] inv hit by blast
  have r3: "fst (fast_ocr (Some 5) False StillAlive ?s0) = []"
    using w3 [THEN conjunct2, THEN conjunct2, THEN conjunct2, THEN conjunct1] miss by simp
  have r4: "total_calls (performance_stats
        (snd (fast_ocr (Some 5) False StillAlive (snd (fast_ocr (Some 5) False StillAlive ?s0)))))
      = 2"
    using w3 [THEN conjunct2, THEN conjunct2, THEN conjunct2, THEN conjunct2] miss r3 calls0
    by simp
  show ?thesis
    using changed hit miss r1 r2 r3 r4 by simp
qed

end
